theory Spec2Isabelle
  imports Main "HOL-Library.AList" "HOL-Library.Sublist"
begin

section \<open>Syntax trees\<close>

text \<open>
  The transformers of \<^verbatim>\<open>flowgraph/trace\<close> work on the syntax trees of the host
  language's \<^verbatim>\<open>ast\<close> module. A tree is a node with fields; the node classes the
  transformers build or inspect have a constructor of their own, every other class
  (statements, operators, other expressions) is a \<open>Node\<close> with its class tag and its
  child nodes in field order. A \<open>Call\<close> has the five fields of the older dialect
  (\<^verbatim>\<open>func, args, keywords, starargs, kwargs\<close>); in the newer dialect, where a spread is
  a \<open>Starred\<close> positional argument or a keyword without a name, the last two fields do
  not exist and are \<open>None\<close> here.
\<close>

datatype expr_context = Load | Store | Del

datatype expr =
    Name string expr_context
  | Num int
  | Str string
  | Attribute expr string expr_context
  | Starred expr expr_context
  | Call expr "expr list" "keyword list" "expr option" "expr option"
  | Node string "expr list"
and keyword = keyword (kw_arg: "string option") (kw_value: expr)

fun is_Starred :: "expr \<Rightarrow> bool" where
  "is_Starred (Starred e c) = True"
| "is_Starred e = False"

fun starred_value :: "expr \<Rightarrow> expr" where
  "starred_value (Starred e c) = e"
| "starred_value e = e"

datatype py_error = TypeError | ValueError | Exception string

subsection \<open>The interpreter version\<close>

record version_info =
  major :: nat
  minor :: nat

text \<open>\<^verbatim>\<open>ast_has_starred = sys.version_info.major >= 3 and sys.version_info.minor >= 5\<close>\<close>

definition ast_has_starred :: "version_info \<Rightarrow> bool" where
  "ast_has_starred v \<longleftrightarrow> major v \<ge> 3 \<and> minor v \<ge> 5"

subsection \<open>Node construction helpers\<close>

datatype str_or_name = PyStr string | PyNode expr | PyOther

text \<open>\<^verbatim>\<open>to_name(str_or_name, ctx=None)\<close>: a string or a \<open>Name\<close> node becomes a
  new \<open>Name\<close> node; anything else raises \<^verbatim>\<open>TypeError\<close>.\<close>

fun to_name :: "str_or_name \<Rightarrow> expr_context option \<Rightarrow> py_error + expr" where
  "to_name (PyStr s) ctx = Inr (Name s (case ctx of None \<Rightarrow> Load | Some c \<Rightarrow> c))"
| "to_name (PyNode (Name s c0)) ctx = Inr (Name s (case ctx of None \<Rightarrow> Load | Some c \<Rightarrow> c))"
| "to_name x ctx = Inl TypeError"

text \<open>
  Modelled from the spec: \<^verbatim>\<open>to_attribute\<close> and \<^verbatim>\<open>to_call\<close> are imported by
  \<^verbatim>\<open>ast_trace.py\<close> from \<^verbatim>\<open>ast_transform.py\<close>, whose copy at hand does not
  define them. The spec calls them node-construction helpers building attribute and
  call references, and gives the transformed call as
  \<^verbatim>\<open>trace_return(trace_function(callee, arity)(...))\<close> with the tracer's methods
  reached through the one tracer handle: \<open>to_attribute\<close> builds the attribute
  reference in load context, \<open>to_call\<close> the call node from callee, positional
  arguments, keywords and the two spread slots.
\<close>

definition to_attribute :: "expr \<Rightarrow> string \<Rightarrow> expr" where
  "to_attribute e attr = Attribute e attr Load"

definition to_call :: "expr \<Rightarrow> expr list \<Rightarrow> keyword list \<Rightarrow> expr option \<Rightarrow> expr option \<Rightarrow> expr" where
  "to_call f args keywords starargs kwargs = Call f args keywords starargs kwargs"

section \<open>The transformers\<close>

text \<open>
  A transformer object holds one node: \<^verbatim>\<open>self.tracer\<close> of \<^verbatim>\<open>TraceFunctionCalls\<close>,
  \<^verbatim>\<open>self.wrapper\<close> of \<^verbatim>\<open>WrapCalls\<close>.
\<close>

datatype transformer = TraceFunctionCalls expr | WrapCalls expr

definition TraceFunctionCalls_init :: "str_or_name \<Rightarrow> py_error + transformer" where
  "TraceFunctionCalls_init tracer =
     (case to_name tracer None of Inl e \<Rightarrow> Inl e | Inr n \<Rightarrow> Inr (TraceFunctionCalls n))"

definition WrapCalls_init :: "str_or_name \<Rightarrow> py_error + transformer" where
  "WrapCalls_init wrapper =
     (case to_name wrapper None of Inl e \<Rightarrow> Inl e | Inr n \<Rightarrow> Inr (WrapCalls n))"

definition trace_method :: "expr \<Rightarrow> string \<Rightarrow> expr" where
  "trace_method tracer method = to_attribute tracer method"

definition trace_function :: "expr \<Rightarrow> expr \<Rightarrow> int \<Rightarrow> expr" where
  "trace_function tracer func nargs =
     to_call (trace_method tracer ''trace_function'') [func, Num nargs] [] None None"

text \<open>\<^verbatim>\<open>if arg_name:\<close> holds for a name that is neither \<^verbatim>\<open>None\<close> nor empty.\<close>

definition name_tag :: "string option \<Rightarrow> expr list" where
  "name_tag arg_name = (case arg_name of None \<Rightarrow> [] | Some n \<Rightarrow> if n = [] then [] else [Str n])"

definition trace_argument :: "version_info \<Rightarrow> expr \<Rightarrow> expr \<Rightarrow> string option \<Rightarrow> int \<Rightarrow> expr" where
  "trace_argument v tracer arg_value arg_name nstars =
     (let starred = (ast_has_starred v \<and> is_Starred arg_value);
          arg_value' = (if starred then starred_value arg_value else arg_value);
          nstars' = (if starred then 1 else nstars);
          args = [arg_value'] @ name_tag arg_name;
          keywords = (if nstars' \<noteq> 0 then [keyword (Some ''nstars'') (Num nstars')] else []);
          call = to_call (trace_method tracer ''trace_argument'') args keywords None None
      in if starred then Starred call Load else call)"

definition trace_return :: "expr \<Rightarrow> expr \<Rightarrow> expr" where
  "trace_return tracer return_value =
     to_call (trace_method tracer ''trace_return'') [return_value] [] None None"

text \<open>
  \<^verbatim>\<open>NodeTransformer.visit\<close> sends a \<open>Call\<close> node to \<open>visit_Call\<close> and every other
  node to \<open>generic_visit\<close>, which visits the child nodes in field order and puts the
  results in their place. Both \<open>visit_Call\<close> methods start with
  \<^verbatim>\<open>self.generic_visit(call)\<close>. The functions give the tree that the method returns;
  \<open>visit_Call\<close> is specified on \<open>Call\<close> nodes only, the nodes that \<open>visit\<close> sends
  to it (on any other node the method fails on a missing attribute).
\<close>

function (sequential) visit :: "version_info \<Rightarrow> transformer \<Rightarrow> expr \<Rightarrow> expr"
  and generic_visit :: "version_info \<Rightarrow> transformer \<Rightarrow> expr \<Rightarrow> expr"
  and visit_keyword :: "version_info \<Rightarrow> transformer \<Rightarrow> keyword \<Rightarrow> keyword"
  and visit_Call :: "version_info \<Rightarrow> transformer \<Rightarrow> expr \<Rightarrow> expr"
where
  "visit v T (Call f a k s d) = visit_Call v T (Call f a k s d)"
| "visit v T e = generic_visit v T e"
| "generic_visit v T (Name n c) = Name n c"
| "generic_visit v T (Num i) = Num i"
| "generic_visit v T (Str x) = Str x"
| "generic_visit v T (Attribute e n c) = Attribute (visit v T e) n c"
| "generic_visit v T (Starred e c) = Starred (visit v T e) c"
| "generic_visit v T (Call f a k s d) =
     Call (visit v T f) (map (visit v T) a) (map (visit_keyword v T) k)
          (map_option (visit v T) s) (map_option (visit v T) d)"
| "generic_visit v T (Node t cs) = Node t (map (visit v T) cs)"
| "visit_keyword v T (keyword n e) = keyword n (visit v T e)"
| "visit_Call v (TraceFunctionCalls tracer) (Call f a k s d) =
     (case generic_visit v (TraceFunctionCalls tracer) (Call f a k s d) of
        Call func0 args0 keywords0 starargs0 kwargs0 \<Rightarrow>
          (let args = map (\<lambda>arg. trace_argument v tracer arg None 0) args0;
               keywords = map (\<lambda>kw. keyword (kw_arg kw)
                             (trace_argument v tracer (kw_value kw) (kw_arg kw)
                                (if kw_arg kw = None then 2 else 0))) keywords0;
               nargs = int (length args) + int (length keywords);
               starargs = (if \<not> ast_has_starred v
                           then map_option (\<lambda>e. trace_argument v tracer e None 1) starargs0
                           else None);
               nargs1 = (if \<not> ast_has_starred v \<and> starargs0 \<noteq> None then nargs + 1 else nargs);
               kwargs = (if \<not> ast_has_starred v
                         then map_option (\<lambda>e. trace_argument v tracer e None 2) kwargs0
                         else None);
               nargs2 = (if \<not> ast_has_starred v \<and> kwargs0 \<noteq> None then nargs1 + 1 else nargs1)
           in trace_return tracer
                (to_call (trace_function tracer func0 nargs2) args keywords starargs kwargs)))"
| "visit_Call v (WrapCalls wrapper) (Call f a k s d) =
     (case generic_visit v (WrapCalls wrapper) (Call f a k s d) of
        Call func0 args0 keywords0 starargs0 kwargs0 \<Rightarrow>
          (let new_args = [func0] @ args0
           in if ast_has_starred v
              then Call wrapper new_args keywords0 None None
              else Call wrapper new_args keywords0 starargs0 kwargs0))"
  by pat_completeness auto

lemma size_mem_list: "x \<in> set xs \<Longrightarrow> size x \<le> size_list size xs"
  by (induction xs) auto

termination visit
  apply (relation "measure (\<lambda>x. case x of
      Inl (Inl (v, T, e)) \<Rightarrow> 3 * size e + 2
    | Inl (Inr (v, T, e)) \<Rightarrow> 3 * size e
    | Inr (Inl (v, T, kw)) \<Rightarrow> 3 * size kw
    | Inr (Inr (v, T, e)) \<Rightarrow> 3 * size e + 1)")
                     apply simp_all
    apply (force dest: size_mem_list)+
  done

declare visit_Call.simps [simp del]

subsection \<open>Reading a rewritten call\<close>

text \<open>
  The pieces of the call that \<open>visit_Call\<close> of \<open>TraceFunctionCalls\<close> builds, named
  after the local variables of the method: the wrapped positional argument, the wrapped
  keyword, and the wrapped spread slot of the older dialect.
\<close>

definition traced_arg :: "version_info \<Rightarrow> expr \<Rightarrow> expr \<Rightarrow> expr" where
  "traced_arg v tr e = trace_argument v tr (visit v (TraceFunctionCalls tr) e) None 0"

definition traced_keyword :: "version_info \<Rightarrow> expr \<Rightarrow> keyword \<Rightarrow> keyword" where
  "traced_keyword v tr kw =
     keyword (kw_arg kw)
       (trace_argument v tr (visit v (TraceFunctionCalls tr) (kw_value kw)) (kw_arg kw)
          (if kw_arg kw = None then 2 else 0))"

definition traced_spread :: "version_info \<Rightarrow> expr \<Rightarrow> int \<Rightarrow> expr option \<Rightarrow> expr option" where
  "traced_spread v tr nstars slot =
     (if ast_has_starred v then None
      else map_option (\<lambda>e. trace_argument v tr (visit v (TraceFunctionCalls tr) e) None nstars) slot)"

text \<open>What \<open>visit_Call\<close> adds to \<open>nargs\<close> for the slot \<^verbatim>\<open>starargs\<close> or
  \<^verbatim>\<open>kwargs\<close>: 1 when the dialect has the slot and the call fills it. In the dialect
  with inline spreads the method does not look at these slots.\<close>

definition explicit_slot :: "version_info \<Rightarrow> expr option \<Rightarrow> nat" where
  "explicit_slot v slot = (if ast_has_starred v then 0 else case slot of None \<Rightarrow> 0 | Some e \<Rightarrow> 1)"

subsection \<open>Counting the arguments of a call\<close>

text \<open>
  The quantities of the arity invariant, in the words of the specification. A positional
  spread of a call is a \<open>Starred\<close> entry of \<^verbatim>\<open>args\<close> or, in the older dialect, the
  filled slot \<^verbatim>\<open>starargs\<close>; a keyword spread is an entry of \<^verbatim>\<open>keywords\<close> without a
  name or, in the older dialect, the filled slot \<^verbatim>\<open>kwargs\<close>. The positional and the
  keyword arguments are the entries that are not spreads. A spread flag is 1 when the
  call has a spread of that sort, 0 when it has none.
\<close>

definition positional_arguments :: "expr list \<Rightarrow> nat" where
  "positional_arguments a = length (filter (\<lambda>e. \<not> is_Starred e) a)"

definition keyword_arguments :: "keyword list \<Rightarrow> nat" where
  "keyword_arguments k = length (filter (\<lambda>kw. kw_arg kw \<noteq> None) k)"

definition positional_spreads :: "version_info \<Rightarrow> expr list \<Rightarrow> expr option \<Rightarrow> nat" where
  "positional_spreads v a s = length (filter is_Starred a) + explicit_slot v s"

definition keyword_spreads :: "version_info \<Rightarrow> keyword list \<Rightarrow> expr option \<Rightarrow> nat" where
  "keyword_spreads v k d = length (filter (\<lambda>kw. kw_arg kw = None) k) + explicit_slot v d"

definition spread_present :: "nat \<Rightarrow> nat" where
  "spread_present n = (if n = 0 then 0 else 1)"

text \<open>Whether a tree holds a call site.\<close>

fun has_call :: "expr \<Rightarrow> bool" and kw_has_call :: "keyword \<Rightarrow> bool" where
  "has_call (Call f a k s d) = True"
| "has_call (Attribute e n c) = has_call e"
| "has_call (Starred e c) = has_call e"
| "has_call (Node t cs) = list_ex has_call cs"
| "has_call (Name n c) = False"
| "has_call (Num i) = False"
| "has_call (Str x) = False"
| "kw_has_call (keyword n e) = has_call e"

definition slot_has_call :: "expr option \<Rightarrow> bool" where
  "slot_has_call slot = (case slot of None \<Rightarrow> False | Some e \<Rightarrow> has_call e)"

section \<open>Argument binding\<close>

subsection \<open>Values, parameters and callables\<close>

text \<open>
  The values that \<open>bind_arguments\<close> handles: an argument is any object; the resolver
  itself builds tuples (for a variadic positional parameter) and dictionaries (for a
  variadic keyword parameter), and asks of a receiver whether it is a class
  (\<^verbatim>\<open>inspect.isclass\<close>), a module (\<^verbatim>\<open>types.ModuleType\<close>) or \<^verbatim>\<open>None\<close>. An ordered
  dictionary is the list of its items in insertion order; \<^verbatim>\<open>d[key] = value\<close> is
  \<open>AList.update\<close>, which replaces the value of a key in place and appends a new key.
\<close>

datatype pyval = VNone | VInt int | VStr string | VList "pyval list" | VTuple "pyval list"
  | VDict "(string \<times> pyval) list" | VObject nat | VClass string | VModule string

type_synonym ordered_dict = "(string \<times> pyval) list"







subsection \<open>The host library: signatures and their binding\<close>






subsection \<open>\<^verbatim>\<open>bind_arguments\<close> of \<^verbatim>\<open>ast_trace.py\<close>\<close>

text \<open>\<^verbatim>\<open>str(i)\<close> of a natural number: its decimal digits.\<close>

definition digit :: "nat \<Rightarrow> char" where
  "digit n = ''0123456789'' ! n"

function str :: "nat \<Rightarrow> string" where
  "str n = (if n < 10 then [digit n] else str (n div 10) @ [digit (n mod 10)])"
  by pat_completeness auto
termination
  by (relation "measure id") auto

declare str.simps [simp del]

text \<open>Case 4: the items \<^verbatim>\<open>(str(i), value)\<close> of the positional arguments, then the
  items of the keyword arguments, assigned one after the other to an empty ordered
  dictionary.\<close>

definition enumerate_keys :: "pyval list \<Rightarrow> ordered_dict" where
  "enumerate_keys args = zip (map str [0..<length args]) args"

definition opaque_arguments :: "pyval list \<Rightarrow> ordered_dict \<Rightarrow> ordered_dict" where
  "opaque_arguments args kwargs =
     foldl (\<lambda>arguments (key, val). AList.update key val arguments) [] (enumerate_keys args @ kwargs)"




subsection \<open>The keyword arguments of a call\<close>

text \<open>
  The keyword arguments of a call reach a function declared with \<^verbatim>\<open>**kwargs\<close> as the
  dictionary \<open>kwargs\<close>. From version 3.6 of the interpreter on, the dictionary holds
  them in the order in which the call supplied them. Before, the dictionary is a hash
  table and holds them in the order of the table: here, sorted by the slot of their
  key, \<open>slot\<close> being a function of the interpreter that the model leaves open.
\<close>

definition keeps_keyword_order :: "version_info \<Rightarrow> bool" where
  "keeps_keyword_order v \<longleftrightarrow> major v > 3 \<or> (major v = 3 \<and> minor v \<ge> 6)"

definition keyword_dict :: "version_info \<Rightarrow> (string \<Rightarrow> nat) \<Rightarrow> ordered_dict \<Rightarrow> ordered_dict" where
  "keyword_dict v slot kwargs =
     (if keeps_keyword_order v then kwargs else sort_key (\<lambda>kv. slot (fst kv)) kwargs)"

subsection \<open>\<^verbatim>\<open>bind_arguments\<close> and \<^verbatim>\<open>make_tracing_call_wrapper\<close> of \<^verbatim>\<open>ast_transform.py\<close>\<close>



subsection \<open>Describing a binding\<close>

text \<open>The decimal value of a string of digits, the inverse of \<open>str\<close>.\<close>

definition digit_val :: "char \<Rightarrow> nat" where
  "digit_val c = length (takeWhile (\<lambda>d. d \<noteq> c) ''0123456789'')"

definition str_val :: "string \<Rightarrow> nat" where
  "str_val s = foldl (\<lambda>a c. 10 * a + digit_val c) 0 s"















section \<open>Properties of the transformers\<close>

lemma kw_arg_visit_keyword [simp]: "kw_arg (visit_keyword v T kw) = kw_arg kw"
  by (cases kw) simp

lemma kw_value_visit_keyword [simp]: "kw_value (visit_keyword v T kw) = visit v T (kw_value kw)"
  by (cases kw) simp

lemma visit_Call_trace:
  "visit_Call v (TraceFunctionCalls tr) (Call f a k s d) =
     trace_return tr
       (to_call (trace_function tr (visit v (TraceFunctionCalls tr) f)
                   (int (length a + length k + explicit_slot v s + explicit_slot v d)))
          (map (traced_arg v tr) a) (map (traced_keyword v tr) k)
          (traced_spread v tr 1 s) (traced_spread v tr 2 d))"
  unfolding traced_arg_def [abs_def] traced_keyword_def [abs_def]
  by (simp add: visit_Call.simps Let_def explicit_slot_def traced_spread_def comp_def
      split: option.splits)

text \<open>The same call, node by node.\<close>

lemma visit_Call_tree:
  "visit_Call v (TraceFunctionCalls tr) (Call f a k s d) =
     Call (Attribute tr ''trace_return'' Load)
       [Call (Call (Attribute tr ''trace_function'' Load)
                [visit v (TraceFunctionCalls tr) f,
                 Num (int (length a + length k + explicit_slot v s + explicit_slot v d))]
                [] None None)
          (map (traced_arg v tr) a) (map (traced_keyword v tr) k)
          (traced_spread v tr 1 s) (traced_spread v tr 2 d)]
       [] None None"
  by (simp add: visit_Call_trace trace_return_def trace_function_def trace_method_def
      to_call_def to_attribute_def)

lemma length_filter_compl: "length (filter (\<lambda>x. \<not> P x) xs) + length (filter P xs) = length xs"
  by (induction xs) auto

lemma arguments_and_spreads:
  "positional_arguments a + keyword_arguments k + positional_spreads v a s + keyword_spreads v k d =
     length a + length k + explicit_slot v s + explicit_slot v d"
proof -
  have "length (filter (\<lambda>e. \<not> is_Starred e) a) + length (filter is_Starred a) = length a"
    by (rule length_filter_compl)
  moreover have "length (filter (\<lambda>kw. kw_arg kw \<noteq> None) k)
      + length (filter (\<lambda>kw. kw_arg kw = None) k) = length k"
    by (rule length_filter_compl)
  ultimately show ?thesis
    by (simp add: positional_arguments_def keyword_arguments_def positional_spreads_def
        keyword_spreads_def)
qed

lemma traced_arg_tree:
  "traced_arg v tr e =
     (if ast_has_starred v \<and> is_Starred e
      then Starred (Call (Attribute tr ''trace_argument'' Load)
                      [starred_value (visit v (TraceFunctionCalls tr) e)]
                      [keyword (Some ''nstars'') (Num 1)] None None) Load
      else Call (Attribute tr ''trace_argument'' Load)
             [visit v (TraceFunctionCalls tr) e] [] None None)"
  by (cases e)
    (simp_all add: traced_arg_def trace_argument_def name_tag_def to_call_def trace_method_def
      to_attribute_def Let_def visit_Call_tree)

lemma traced_keyword_tree:
  "traced_keyword v tr (keyword n x) =
     keyword n
       (if ast_has_starred v \<and> is_Starred x
        then Starred (Call (Attribute tr ''trace_argument'' Load)
                        (starred_value (visit v (TraceFunctionCalls tr) x)
                           # (case n of None \<Rightarrow> [] | Some m \<Rightarrow> if m = [] then [] else [Str m]))
                        [keyword (Some ''nstars'') (Num 1)] None None) Load
        else Call (Attribute tr ''trace_argument'' Load)
               (visit v (TraceFunctionCalls tr) x
                  # (case n of None \<Rightarrow> [] | Some m \<Rightarrow> if m = [] then [] else [Str m]))
               (case n of None \<Rightarrow> [keyword (Some ''nstars'') (Num 2)] | Some m \<Rightarrow> [])
               None None)"
  by (cases x; cases n)
    (simp_all add: traced_keyword_def trace_argument_def name_tag_def to_call_def
      trace_method_def to_attribute_def Let_def visit_Call_tree)

lemma traced_spread_tree:
  "traced_spread v tr n slot =
     (if ast_has_starred v then None
      else map_option (\<lambda>e. Call (Attribute tr ''trace_argument'' Load)
                              [visit v (TraceFunctionCalls tr) e]
                              (if n = 0 then [] else [keyword (Some ''nstars'') (Num n)])
                              None None) slot)"
  by (cases slot)
    (simp_all add: traced_spread_def trace_argument_def name_tag_def to_call_def
      trace_method_def to_attribute_def Let_def)

lemma visit_Call_wrap:
  "visit_Call v (WrapCalls w) (Call f a k s d) =
     (if ast_has_starred v
      then Call w (visit v (WrapCalls w) f # map (visit v (WrapCalls w)) a)
             (map (visit_keyword v (WrapCalls w)) k) None None
      else Call w (visit v (WrapCalls w) f # map (visit v (WrapCalls w)) a)
             (map (visit_keyword v (WrapCalls w)) k)
             (map_option (visit v (WrapCalls w)) s) (map_option (visit v (WrapCalls w)) d))"
  by (simp add: visit_Call.simps)

lemma is_Starred_trace_argument:
  "is_Starred (trace_argument v tr e name n) \<longleftrightarrow> ast_has_starred v \<and> is_Starred e"
  by (cases e) (simp_all add: trace_argument_def Let_def to_call_def)

lemma is_Starred_visit [simp]: "is_Starred (visit v T e) = is_Starred e"
proof (cases e)
  case (Call f a k s d)
  then show ?thesis
    by (cases T) (simp_all add: visit_Call.simps Let_def trace_return_def to_call_def)
qed simp_all

lemma visit_no_call_aux:
  "\<not> has_call e \<longrightarrow> visit v T e = e"
  and generic_visit_no_call_aux: "\<not> has_call e' \<longrightarrow> generic_visit v T e' = e'"
  and visit_keyword_no_call_aux: "\<not> kw_has_call kw \<longrightarrow> visit_keyword v T kw = kw"
  and visit_Call_no_call_aux: "(e''::expr) = e''"
  by (induction v T e and v T e' and v T kw and v T e''
      rule: visit_generic_visit_visit_keyword_visit_Call.induct)
    (simp_all add: list_ex_iff map_idI)

lemma visit_no_call: "\<not> has_call e \<Longrightarrow> visit v T e = e"
  by (simp add: visit_no_call_aux)

lemma visit_keyword_no_call: "\<not> kw_has_call kw \<Longrightarrow> visit_keyword v T kw = kw"
  by (simp add: visit_keyword_no_call_aux)

lemma map_visit_no_call: "\<not> list_ex has_call a \<Longrightarrow> map (visit v T) a = a"
  by (rule map_idI) (simp add: list_ex_iff visit_no_call)

lemma map_visit_keyword_no_call: "\<not> list_ex kw_has_call k \<Longrightarrow> map (visit_keyword v T) k = k"
  by (rule map_idI) (simp add: list_ex_iff visit_keyword_no_call)

text \<open>
  C2 (as amended). The arity that \<open>visit_Call\<close> of \<open>TraceFunctionCalls\<close> passes to
  \<^verbatim>\<open>trace_function\<close> is \<open>p + k + n1 + n2\<close>: \<open>p\<close> the number of positional arguments
  of the call, \<open>k\<close> the number of its keyword arguments, \<open>n1\<close> the number of its
  positional spreads and \<open>n2\<close> the number of its keyword spreads; every spread counts as
  one slot. That is \<open>p + k + s1 + s2\<close> with the spread flags \<open>s1\<close>, \<open>s2\<close> exactly
  when the call has at most one positional and at most one keyword spread. A call
  without arguments is rewritten with arity 0 and without any wrapped argument.
\<close>

theorem visit_Call_arity:
  "visit_Call v (TraceFunctionCalls tr) (Call f a k s d) =
     Call (Attribute tr ''trace_return'' Load)
       [Call (Call (Attribute tr ''trace_function'' Load)
                [visit v (TraceFunctionCalls tr) f,
                 Num (int (positional_arguments a + keyword_arguments k
                             + positional_spreads v a s + keyword_spreads v k d))]
                [] None None)
          (map (traced_arg v tr) a) (map (traced_keyword v tr) k)
          (traced_spread v tr 1 s) (traced_spread v tr 2 d)]
       [] None None
   \<and> (positional_arguments a + keyword_arguments k
          + positional_spreads v a s + keyword_spreads v k d =
        positional_arguments a + keyword_arguments k
          + spread_present (positional_spreads v a s) + spread_present (keyword_spreads v k d))
       = (positional_spreads v a s \<le> 1 \<and> keyword_spreads v k d \<le> 1)
   \<and> visit_Call v (TraceFunctionCalls tr) (Call f [] [] None None) =
       Call (Attribute tr ''trace_return'' Load)
         [Call (Call (Attribute tr ''trace_function'' Load)
                  [visit v (TraceFunctionCalls tr) f, Num 0] [] None None)
            [] [] None None]
         [] None None"
proof (intro conjI)
  show "visit_Call v (TraceFunctionCalls tr) (Call f a k s d) =
     Call (Attribute tr ''trace_return'' Load)
       [Call (Call (Attribute tr ''trace_function'' Load)
                [visit v (TraceFunctionCalls tr) f,
                 Num (int (positional_arguments a + keyword_arguments k
                             + positional_spreads v a s + keyword_spreads v k d))]
                [] None None)
          (map (traced_arg v tr) a) (map (traced_keyword v tr) k)
          (traced_spread v tr 1 s) (traced_spread v tr 2 d)]
       [] None None"
    unfolding arguments_and_spreads by (rule visit_Call_tree)
  have "(p + n1 + n2 = p + spread_present n1 + spread_present n2) = (n1 \<le> 1 \<and> n2 \<le> 1)"
    for p n1 n2 :: nat
    by (auto simp: spread_present_def)
  then show "(positional_arguments a + keyword_arguments k
          + positional_spreads v a s + keyword_spreads v k d =
        positional_arguments a + keyword_arguments k
          + spread_present (positional_spreads v a s) + spread_present (keyword_spreads v k d))
       = (positional_spreads v a s \<le> 1 \<and> keyword_spreads v k d \<le> 1)" .
  show "visit_Call v (TraceFunctionCalls tr) (Call f [] [] None None) =
       Call (Attribute tr ''trace_return'' Load)
         [Call (Call (Attribute tr ''trace_function'' Load)
                  [visit v (TraceFunctionCalls tr) f, Num 0] [] None None)
            [] [] None None]
         [] None None"
    by (simp add: visit_Call_tree explicit_slot_def traced_spread_def)
qed

text \<open>The claim as stated fails for \<^verbatim>\<open>g(*xs, *ys)\<close> in the dialect with inline spreads:
  the call has no positional and no keyword argument and a positional spread, so the
  claimed arity is \<open>0 + 0 + 1 + 0\<close>; \<open>visit_Call\<close> passes 2. (Counting the two
  \<open>Starred\<close> entries as positional arguments as well gives 3.)\<close>

theorem visit_Call_arity_counterexample:
  "visit_Call \<lparr>major = 3, minor = 5\<rparr> (TraceFunctionCalls (Name ''tracer'' Load))
     (Call (Name ''g'' Load) [Starred (Name ''xs'' Load) Load, Starred (Name ''ys'' Load) Load]
        [] None None) =
   Call (Attribute (Name ''tracer'' Load) ''trace_return'' Load)
     [Call (Call (Attribute (Name ''tracer'' Load) ''trace_function'' Load)
              [Name ''g'' Load, Num 2] [] None None)
        [Starred (Call (Attribute (Name ''tracer'' Load) ''trace_argument'' Load)
                    [Name ''xs'' Load] [keyword (Some ''nstars'') (Num 1)] None None) Load,
         Starred (Call (Attribute (Name ''tracer'' Load) ''trace_argument'' Load)
                    [Name ''ys'' Load] [keyword (Some ''nstars'') (Num 1)] None None) Load]
        [] None None]
     [] None None
   \<and> positional_arguments [Starred (Name ''xs'' Load) Load, Starred (Name ''ys'' Load) Load]
       + keyword_arguments []
       + spread_present (positional_spreads \<lparr>major = 3, minor = 5\<rparr>
           [Starred (Name ''xs'' Load) Load, Starred (Name ''ys'' Load) Load] None)
       + spread_present (keyword_spreads \<lparr>major = 3, minor = 5\<rparr> [] None) = 1
   \<and> length [Starred (Name ''xs'' Load) Load, Starred (Name ''ys'' Load) Load]
       + length ([] :: keyword list)
       + spread_present (positional_spreads \<lparr>major = 3, minor = 5\<rparr>
           [Starred (Name ''xs'' Load) Load, Starred (Name ''ys'' Load) Load] None)
       + spread_present (keyword_spreads \<lparr>major = 3, minor = 5\<rparr> [] None) = 3"
  by (simp add: visit_Call_tree traced_arg_tree traced_spread_tree explicit_slot_def
      ast_has_starred_def positional_arguments_def keyword_arguments_def positional_spreads_def
      keyword_spreads_def spread_present_def)

text \<open>
  C6. Every call site is rewritten to
  \<^verbatim>\<open>trace_return(trace_function(callee, nargs)(wrapped arguments...))\<close>: a call of the
  tracer's \<^verbatim>\<open>trace_return\<close> whose one argument is the call of
  \<^verbatim>\<open>trace_function(callee, nargs)\<close>. That call has the arguments of the call site,
  slot by slot: as many positional slots, in the order of the source, each holding the
  \<^verbatim>\<open>trace_argument\<close> call around the (rewritten) argument that stood there, and after
  them as many keyword slots, in the order of the source and under the same names, each
  holding the \<^verbatim>\<open>trace_argument\<close> call around the (rewritten) value that stood there.
  A spread marker stays on the outside of the wrapped slot. Nothing else is added.
\<close>

theorem visit_Call_order:
  "visit_Call v (TraceFunctionCalls tr) (Call f a k s d) =
     Call (Attribute tr ''trace_return'' Load)
       [Call (Call (Attribute tr ''trace_function'' Load)
                [visit v (TraceFunctionCalls tr) f,
                 Num (int (length a + length k + explicit_slot v s + explicit_slot v d))]
                [] None None)
          (map (traced_arg v tr) a) (map (traced_keyword v tr) k)
          (traced_spread v tr 1 s) (traced_spread v tr 2 d)]
       [] None None
   \<and> traced_arg v tr e =
       (if ast_has_starred v \<and> is_Starred e
        then Starred (Call (Attribute tr ''trace_argument'' Load)
                        [starred_value (visit v (TraceFunctionCalls tr) e)]
                        [keyword (Some ''nstars'') (Num 1)] None None) Load
        else Call (Attribute tr ''trace_argument'' Load)
               [visit v (TraceFunctionCalls tr) e] [] None None)
   \<and> traced_keyword v tr (keyword n x) =
       keyword n
         (if ast_has_starred v \<and> is_Starred x
          then Starred (Call (Attribute tr ''trace_argument'' Load)
                          (starred_value (visit v (TraceFunctionCalls tr) x)
                             # (case n of None \<Rightarrow> [] | Some m \<Rightarrow> if m = [] then [] else [Str m]))
                          [keyword (Some ''nstars'') (Num 1)] None None) Load
          else Call (Attribute tr ''trace_argument'' Load)
                 (visit v (TraceFunctionCalls tr) x
                    # (case n of None \<Rightarrow> [] | Some m \<Rightarrow> if m = [] then [] else [Str m]))
                 (case n of None \<Rightarrow> [keyword (Some ''nstars'') (Num 2)] | Some m \<Rightarrow> [])
                 None None)
   \<and> traced_spread v tr 1 s =
       (if ast_has_starred v then None
        else map_option (\<lambda>e. Call (Attribute tr ''trace_argument'' Load)
                                [visit v (TraceFunctionCalls tr) e]
                                [keyword (Some ''nstars'') (Num 1)] None None) s)
   \<and> traced_spread v tr 2 d =
       (if ast_has_starred v then None
        else map_option (\<lambda>e. Call (Attribute tr ''trace_argument'' Load)
                                [visit v (TraceFunctionCalls tr) e]
                                [keyword (Some ''nstars'') (Num 2)] None None) d)
   \<and> length (map (traced_arg v tr) a) = length a
   \<and> length (map (traced_keyword v tr) k) = length k
   \<and> map kw_arg (map (traced_keyword v tr) k) = map kw_arg k
   \<and> map is_Starred (map (traced_arg v tr) a) = map (\<lambda>e. ast_has_starred v \<and> is_Starred e) a"
proof -
  have "map kw_arg (map (traced_keyword v tr) k) = map kw_arg k"
    by (simp add: traced_keyword_def comp_def)
  moreover have "map is_Starred (map (traced_arg v tr) a) =
      map (\<lambda>e. ast_has_starred v \<and> is_Starred e) a"
    by (simp add: traced_arg_def is_Starred_trace_argument comp_def)
  ultimately show ?thesis
    using visit_Call_tree [of v tr f a k s d] traced_arg_tree [of v tr e]
      traced_keyword_tree [of v tr n x] traced_spread_tree [of v tr 1 s]
      traced_spread_tree [of v tr 2 d]
    by simp
qed

text \<open>Scenario 1 of the specification, \<^verbatim>\<open>f(1, y=2)\<close>:\<close>

theorem visit_Call_order_witness:
  "visit_Call \<lparr>major = 3, minor = 6\<rparr> (TraceFunctionCalls (Name ''tracer'' Load))
     (Call (Name ''f'' Load) [Num 1] [keyword (Some ''y'') (Num 2)] None None) =
   Call (Attribute (Name ''tracer'' Load) ''trace_return'' Load)
     [Call (Call (Attribute (Name ''tracer'' Load) ''trace_function'' Load)
              [Name ''f'' Load, Num 2] [] None None)
        [Call (Attribute (Name ''tracer'' Load) ''trace_argument'' Load) [Num 1] [] None None]
        [keyword (Some ''y'')
           (Call (Attribute (Name ''tracer'' Load) ''trace_argument'' Load)
              [Num 2, Str ''y''] [] None None)]
        None None]
     [] None None"
  using visit_Call_order [of "\<lparr>major = 3, minor = 6\<rparr>" "Name ''tracer'' Load" "Name ''f'' Load"
      "[Num 1]" "[keyword (Some ''y'') (Num 2)]" None None "Num 1" "Some ''y''" "Num 2"]
  by (simp add: explicit_slot_def ast_has_starred_def)

text \<open>
  C7. In the dialect with inline spreads, \<^verbatim>\<open>trace_argument\<close> takes the inner
  expression out of a \<open>Starred\<close> argument, wraps it in a \<^verbatim>\<open>trace_argument\<close> call
  tagged \<^verbatim>\<open>nstars=1\<close> and puts the marker back on the wrapped call; \<open>visit_Call\<close>
  does so for every positional argument, and wraps the expression of a keyword slot
  without a name in a call tagged \<^verbatim>\<open>nstars=2\<close>, the slot keeping no name.
\<close>

theorem trace_argument_starred:
  assumes "ast_has_starred v"
  shows "visit_Call v (TraceFunctionCalls tr) (Call f a k s d) =
           trace_return tr
             (to_call (trace_function tr (visit v (TraceFunctionCalls tr) f)
                         (int (length a + length k)))
                (map (traced_arg v tr) a) (map (traced_keyword v tr) k) None None)
         \<and> trace_argument v tr (Starred e c) name n =
             Starred (to_call (trace_method tr ''trace_argument'') (e # name_tag name)
                        [keyword (Some ''nstars'') (Num 1)] None None) Load
         \<and> traced_arg v tr (Starred e c) =
             Starred (to_call (trace_method tr ''trace_argument'')
                        [visit v (TraceFunctionCalls tr) e]
                        [keyword (Some ''nstars'') (Num 1)] None None) Load
         \<and> (\<not> is_Starred x \<longrightarrow>
              traced_keyword v tr (keyword None x) =
                keyword None (to_call (trace_method tr ''trace_argument'')
                                [visit v (TraceFunctionCalls tr) x]
                                [keyword (Some ''nstars'') (Num 2)] None None))"
  using assms
  by (simp add: visit_Call_trace explicit_slot_def traced_spread_def trace_argument_def
      traced_arg_def traced_keyword_def name_tag_def)

theorem trace_argument_starred_witness:
  "visit_Call \<lparr>major = 3, minor = 5\<rparr> (TraceFunctionCalls (Name ''tracer'' Load))
     (Call (Name ''g'' Load) [Starred (Name ''xs'' Load) Load]
        [keyword None (Name ''kw'' Load)] None None) =
   Call (Attribute (Name ''tracer'' Load) ''trace_return'' Load)
     [Call (Call (Attribute (Name ''tracer'' Load) ''trace_function'' Load)
              [Name ''g'' Load, Num 2] [] None None)
        [Starred (Call (Attribute (Name ''tracer'' Load) ''trace_argument'' Load)
                    [Name ''xs'' Load] [keyword (Some ''nstars'') (Num 1)] None None) Load]
        [keyword None (Call (Attribute (Name ''tracer'' Load) ''trace_argument'' Load)
                    [Name ''kw'' Load] [keyword (Some ''nstars'') (Num 2)] None None)]
        None None]
     [] None None"
  using trace_argument_starred [of "\<lparr>major = 3, minor = 5\<rparr>" "Name ''tracer'' Load"
      "Name ''g'' Load" "[Starred (Name ''xs'' Load) Load]" "[keyword None (Name ''kw'' Load)]"
      None None "Name ''xs'' Load" Load None 0 "Name ''kw'' Load"]
  by (simp add: ast_has_starred_def trace_return_def to_call_def trace_function_def
      trace_method_def to_attribute_def)

text \<open>
  C9. \<open>visit_Call\<close> of \<open>WrapCalls\<close> turns a call site \<^verbatim>\<open>F(args...)\<close> into
  \<^verbatim>\<open>wrapper(F, args...)\<close>: the callee is the first positional argument of the new
  call, the positional arguments follow it, and the keywords and the spreads stand where
  they stood; no argument is wrapped. The callee and the arguments are the ones that
  \<open>generic_visit\<close> left in the call, so a call nested inside them is rewritten in the
  same way, and a callee and arguments without a call site are passed on exactly as they
  are. (A call of the dialect with inline spreads has no explicit spread slots.)
\<close>

theorem WrapCalls_visit_Call:
  assumes "ast_has_starred v \<Longrightarrow> s = None \<and> d = None"
  shows "visit_Call v (WrapCalls w) (Call f a k s d) =
           Call w (visit v (WrapCalls w) f # map (visit v (WrapCalls w)) a)
             (map (visit_keyword v (WrapCalls w)) k)
             (map_option (visit v (WrapCalls w)) s) (map_option (visit v (WrapCalls w)) d)
         \<and> (\<not> has_call f \<and> \<not> list_ex has_call a \<and> \<not> list_ex kw_has_call k
              \<and> \<not> slot_has_call s \<and> \<not> slot_has_call d
            \<longrightarrow> visit_Call v (WrapCalls w) (Call f a k s d) = Call w (f # a) k s d)"
proof -
  have shape: "visit_Call v (WrapCalls w) (Call f a k s d) =
           Call w (visit v (WrapCalls w) f # map (visit v (WrapCalls w)) a)
             (map (visit_keyword v (WrapCalls w)) k)
             (map_option (visit v (WrapCalls w)) s) (map_option (visit v (WrapCalls w)) d)"
    using assms by (cases "ast_has_starred v") (simp_all add: visit_Call_wrap)
  have same: "visit v (WrapCalls w) f = f" "map (visit v (WrapCalls w)) a = a"
      "map (visit_keyword v (WrapCalls w)) k = k"
      "map_option (visit v (WrapCalls w)) s = s" "map_option (visit v (WrapCalls w)) d = d"
    if "\<not> has_call f" "\<not> list_ex has_call a" "\<not> list_ex kw_has_call k"
      "\<not> slot_has_call s" "\<not> slot_has_call d"
    using that
    by (auto simp: visit_no_call map_visit_no_call map_visit_keyword_no_call
        slot_has_call_def split: option.splits)
  show ?thesis using shape same by simp
qed

theorem WrapCalls_visit_Call_witness:
  "visit_Call \<lparr>major = 3, minor = 6\<rparr> (WrapCalls (Name ''wrapper'' Load))
     (Call (Name ''f'' Load) [Name ''x'' Load, Starred (Name ''xs'' Load) Load]
        [keyword (Some ''z'') (Num 1), keyword None (Name ''kw'' Load)] None None) =
   Call (Name ''wrapper'' Load)
     [Name ''f'' Load, Name ''x'' Load, Starred (Name ''xs'' Load) Load]
     [keyword (Some ''z'') (Num 1), keyword None (Name ''kw'' Load)] None None"
  using WrapCalls_visit_Call [of "\<lparr>major = 3, minor = 6\<rparr>" None None "Name ''wrapper'' Load"
      "Name ''f'' Load" "[Name ''x'' Load, Starred (Name ''xs'' Load) Load]"
      "[keyword (Some ''z'') (Num 1), keyword None (Name ''kw'' Load)]"]
  by (simp add: slot_has_call_def)

section \<open>Properties of argument binding\<close>

lemma digit_val_digit: "n < 10 \<Longrightarrow> digit_val (digit n) = n"
  by (auto simp: digit_val_def digit_def numeral_eq_Suc less_Suc_eq)

lemma str_val_str: "str_val (str n) = n"
proof (induction n rule: str.induct)
  case (1 n)
  show ?case
  proof (cases "n < 10")
    case True
    then show ?thesis by (simp add: str.simps [of n] str_val_def digit_val_digit)
  next
    case False
    with 1 have "str_val (str (n div 10)) = n div 10" by simp
    with False show ?thesis
      by (simp add: str.simps [of n] str_val_def digit_val_digit)
  qed
qed

lemma inj_str: "inj str"
  by (rule inj_on_inverseI [where g = str_val]) (rule str_val_str)

lemma keys_enumerate_keys: "map fst (enumerate_keys args) = map str [0..<length args]"
  by (simp add: enumerate_keys_def)

lemma distinct_enumerate_keys: "distinct (map fst (enumerate_keys args))"
  by (simp add: keys_enumerate_keys distinct_map inj_str [THEN inj_on_subset])

lemma update_fresh: "k \<notin> fst ` set al \<Longrightarrow> AList.update k v al = al @ [(k, v)]"
  by (induction al) auto

lemma foldl_update_fresh:
  "distinct (map fst (acc @ kvs)) \<Longrightarrow>
   foldl (\<lambda>arguments (key, val). AList.update key val arguments) acc kvs = acc @ kvs"
proof (induction kvs arbitrary: acc)
  case Nil
  then show ?case by simp
next
  case (Cons kv kvs)
  obtain k v where kv: "kv = (k, v)" by (cases kv)
  from Cons.prems kv have fresh: "k \<notin> fst ` set acc" by auto
  from Cons.prems kv have "distinct (map fst ((acc @ [(k, v)]) @ kvs))" by auto
  from Cons.IH [OF this] fresh kv show ?case by (simp add: update_fresh)
qed

lemma opaque_arguments_distinct:
  assumes "distinct (map fst kwargs)"
    and "set (map fst kwargs) \<inter> str ` {0..<length args} = {}"
  shows "opaque_arguments args kwargs = enumerate_keys args @ kwargs"
proof -
  have "set (map fst (enumerate_keys args)) = str ` {0..<length args}"
    by (simp add: keys_enumerate_keys)
  with assms have "distinct (map fst ([] @ enumerate_keys args @ kwargs))"
    using distinct_enumerate_keys [of args] by auto
  from foldl_update_fresh [OF this] show ?thesis by (simp add: opaque_arguments_def)
qed




lemma set_keyword_dict [simp]: "set (keyword_dict v slot kwargs) = set kwargs"
  by (simp add: keyword_dict_def)

lemma length_keyword_dict [simp]: "length (keyword_dict v slot kwargs) = length kwargs"
  by (simp add: keyword_dict_def)















































section \<open>Properties of the call wrapper\<close>



end
